theory Spec2Isabelle
  imports Complex_Main "HOL-Library.Log_Nat"
begin

section \<open>CanvasBoard: tree layout and viewport state\<close>

text \<open>
  A shallow embedding of \<^verbatim>\<open>src/pages/canvas-board/CanvasBoard.tsx\<close>.

  JavaScript numbers are modelled as \<^typ>\<open>real\<close>. The layout works on the integer
  window width and integer constants, on which doubles are exact, and the wheel handler
  does one subtraction (and one clamp) per event; there the exact value is written. The
  drag handler adds a delta to the offset once per move event, over any number of events:
  there every subtraction and addition is rounded to the nearest binary64 number
  (\<open>to_double\<close>), as the code's doubles are. The React state (\<^verbatim>\<open>scale\<close>,
  \<^verbatim>\<open>offset\<close>, \<^verbatim>\<open>size\<close>) and the two refs (\<^verbatim>\<open>isDraggingRef\<close>,
  \<^verbatim>\<open>lastPosRef\<close>) are one record that every handler takes and returns; the state
  updaters \<^verbatim>\<open>setX(prev => ...)\<close> are applied in the order the handlers queue them.
  What \<^verbatim>\<open>drawTree\<close> paints is the list of the helper calls it makes, in order.
\<close>

subsection \<open>Data\<close>

text \<open>\<^verbatim>\<open>interface User { id: string; name: string; parentId?: string }\<close>\<close>

record user =
  user_id :: string
  name :: string
  parentId :: "string option"

definition USERS :: "user list" where
  "USERS =
    [\<lparr>user_id = ''1'', name = ''Parent'', parentId = None\<rparr>,
     \<lparr>user_id = ''2'', name = ''Child 1'', parentId = Some ''1''\<rparr>,
     \<lparr>user_id = ''3'', name = ''Child 2'', parentId = Some ''1''\<rparr>,
     \<lparr>user_id = ''4'', name = ''Child 3'', parentId = Some ''1''\<rparr>]"

definition NODE_WIDTH :: real where "NODE_WIDTH = 160"
definition NODE_HEIGHT :: real where "NODE_HEIGHT = 70"
definition VERTICAL_GAP :: real where "VERTICAL_GAP = 120"
definition HORIZONTAL_GAP :: real where "HORIZONTAL_GAP = 220"

subsection \<open>Tree layout\<close>

text \<open>
  The calls \<^verbatim>\<open>drawTree\<close> makes: \<^verbatim>\<open>drawUser(ctx, user, x, y)\<close> paints a node whose
  top-left corner is \<open>(x, y)\<close>, \<^verbatim>\<open>drawLine(ctx, x1, y1, x2, y2)\<close> an edge.
\<close>

datatype draw_call =
    DrawUser user real real
  | DrawLine real real real real

text \<open>
  The test \<^verbatim>\<open>!u.parentId\<close> of \<^verbatim>\<open>USERS.find(u => !u.parentId)\<close>: true when the
  property is absent (\<^verbatim>\<open>undefined\<close>) and also when it is the empty string, the one
  falsy string of JavaScript.
\<close>

definition falsy_parentId :: "user \<Rightarrow> bool" where
  "falsy_parentId u = (case parentId u of None \<Rightarrow> True | Some p \<Rightarrow> p = [])"

text \<open>
  The body of \<^verbatim>\<open>children.forEach((child, index) => ...)\<close>, as a recursion over the
  remaining children with the running index.
\<close>

fun forEach_child :: "real \<Rightarrow> real \<Rightarrow> real \<Rightarrow> nat \<Rightarrow> user list \<Rightarrow> draw_call list" where
  "forEach_child centerX parentY startX index [] = []"
| "forEach_child centerX parentY startX index (child # rest) =
     (let x = startX + real index * HORIZONTAL_GAP;
          y = parentY + VERTICAL_GAP
      in [DrawUser child x y,
          DrawLine (centerX + NODE_WIDTH / 2) (parentY + NODE_HEIGHT) (x + NODE_WIDTH / 2) y])
     @ forEach_child centerX parentY startX (Suc index) rest"

text \<open>
  \<^verbatim>\<open>drawTree\<close>, with the entity list and \<^verbatim>\<open>size.width\<close> as parameters. The
  comparison \<^verbatim>\<open>u.parentId === parent.id\<close> holds only for a present \<^verbatim>\<open>parentId\<close>
  equal to the string \<^verbatim>\<open>parent.id\<close>; \<^verbatim>\<open>children.length - 1\<close> is a subtraction of
  numbers, \<open>-1\<close> for no children.
\<close>

definition drawTree :: "user list \<Rightarrow> real \<Rightarrow> draw_call list" where
  "drawTree users size_width =
     (case find falsy_parentId users of
        None \<Rightarrow> []
      | Some parent \<Rightarrow>
          (let children = filter (\<lambda>u. parentId u = Some (user_id parent)) users;
               centerX = size_width / 2 - NODE_WIDTH / 2;
               parentY = 100;
               startX = centerX - ((real (length children) - 1) * HORIZONTAL_GAP) / 2
           in DrawUser parent centerX parentY
              # forEach_child centerX parentY startX 0 children))"

text \<open>
  The layout as data: the nodes are the \<^verbatim>\<open>drawUser\<close> calls (entity, x, y), each of
  width \<^verbatim>\<open>NODE_WIDTH\<close> and height \<^verbatim>\<open>NODE_HEIGHT\<close>; the edges are the
  \<^verbatim>\<open>drawLine\<close> calls (x1, y1, x2, y2).
\<close>

fun layout_nodes :: "draw_call list \<Rightarrow> (user \<times> real \<times> real) list" where
  "layout_nodes [] = []"
| "layout_nodes (DrawUser u x y # cs) = (u, x, y) # layout_nodes cs"
| "layout_nodes (DrawLine x1 y1 x2 y2 # cs) = layout_nodes cs"

fun layout_edges :: "draw_call list \<Rightarrow> (real \<times> real \<times> real \<times> real) list" where
  "layout_edges [] = []"
| "layout_edges (DrawUser u x y # cs) = layout_edges cs"
| "layout_edges (DrawLine x1 y1 x2 y2 # cs) = (x1, y1, x2, y2) # layout_edges cs"

text \<open>The node of the root is the first one painted, the children's nodes follow.\<close>

definition child_nodes :: "draw_call list \<Rightarrow> (user \<times> real \<times> real) list" where
  "child_nodes cs = tl (layout_nodes cs)"

definition node_entity :: "user \<times> real \<times> real \<Rightarrow> user" where
  "node_entity n = fst n"

definition node_x :: "user \<times> real \<times> real \<Rightarrow> real" where
  "node_x n = fst (snd n)"

definition node_y :: "user \<times> real \<times> real \<Rightarrow> real" where
  "node_y n = snd (snd n)"

text \<open>
  A list of positions is symmetric around \<open>c\<close> when mirroring every position at \<open>c\<close>
  gives the same positions in reverse order; \<open>gaps\<close> are the differences of consecutive
  positions.
\<close>

definition symmetric_around :: "real \<Rightarrow> real list \<Rightarrow> bool" where
  "symmetric_around c xs = (map (\<lambda>x. 2 * c - x) xs = rev xs)"

definition gaps :: "real list \<Rightarrow> real list" where
  "gaps xs = map2 (\<lambda>a b. b - a) xs (tl xs)"

subsection \<open>Drawing helpers\<close>

text \<open>The canvas primitives \<^verbatim>\<open>drawUser\<close> and \<^verbatim>\<open>drawLine\<close> issue.\<close>

datatype canvas_op =
    FillStyle string
  | FillRect real real real real
  | Font string
  | TextAlign string
  | TextBaseline string
  | FillText string real real
  | StrokeStyle string
  | LineWidth real
  | BeginPath
  | MoveTo real real
  | LineTo real real
  | Stroke

definition drawUser :: "user \<Rightarrow> real \<Rightarrow> real \<Rightarrow> canvas_op list" where
  "drawUser u x y =
     [FillStyle ''#4f46e5'',
      FillRect x y NODE_WIDTH NODE_HEIGHT,
      FillStyle ''#ffffff'',
      Font ''600 14px sans-serif'',
      TextAlign ''center'',
      TextBaseline ''middle'',
      FillText (name u) (x + NODE_WIDTH / 2) (y + NODE_HEIGHT / 2)]"

definition drawLine :: "real \<Rightarrow> real \<Rightarrow> real \<Rightarrow> real \<Rightarrow> canvas_op list" where
  "drawLine x1 y1 x2 y2 =
     [StrokeStyle ''#94a3b8'', LineWidth 2, BeginPath, MoveTo x1 y1, LineTo x2 y2, Stroke]"

fun paint :: "draw_call list \<Rightarrow> canvas_op list" where
  "paint [] = []"
| "paint (DrawUser u x y # cs) = drawUser u x y @ paint cs"
| "paint (DrawLine x1 y1 x2 y2 # cs) = drawLine x1 y1 x2 y2 @ paint cs"

subsection \<open>Viewport state and input handlers\<close>

record point =
  point_x :: real
  point_y :: real

record dims =
  width :: real
  height :: real

text \<open>
  The component's state: \<^verbatim>\<open>scale\<close>, \<^verbatim>\<open>offset\<close>, \<^verbatim>\<open>size\<close>,
  \<^verbatim>\<open>isDraggingRef.current\<close> and \<^verbatim>\<open>lastPosRef.current\<close>.
\<close>

record viewport =
  scale :: real
  offset :: point
  size_v :: dims
  isDragging :: bool
  lastPos :: point

text \<open>The state on mount, for a window of the given inner size.\<close>

definition initial :: "real \<Rightarrow> real \<Rightarrow> viewport" where
  "initial innerWidth innerHeight =
     \<lparr>scale = 1,
      offset = \<lparr>point_x = 0, point_y = 0\<rparr>,
      size_v = \<lparr>width = innerWidth, height = innerHeight\<rparr>,
      isDragging = False,
      lastPos = \<lparr>point_x = 0, point_y = 0\<rparr>\<rparr>"

definition handleResize :: "viewport \<Rightarrow> real \<Rightarrow> real \<Rightarrow> viewport" where
  "handleResize s innerWidth innerHeight =
     s\<lparr>size_v := \<lparr>width = innerWidth, height = innerHeight\<rparr>\<rparr>"

definition handleWheel :: "viewport \<Rightarrow> bool \<Rightarrow> real \<Rightarrow> viewport" where
  "handleWheel s shiftKey deltaY =
     (if shiftKey
      then s\<lparr>offset := \<lparr>point_x = point_x (offset s) - deltaY, point_y = point_y (offset s)\<rparr>\<rparr>
      else (let zoomSpeed = 0.001
            in s\<lparr>scale := min 4 (max 0.25 (scale s - deltaY * zoomSpeed))\<rparr>))"

definition handleMouseDown :: "viewport \<Rightarrow> real \<Rightarrow> real \<Rightarrow> viewport" where
  "handleMouseDown s clientX clientY =
     s\<lparr>isDragging := True, lastPos := \<lparr>point_x = clientX, point_y = clientY\<rparr>\<rparr>"

text \<open>
  Rounding to binary64, the number format of JavaScript: round to nearest, ties to even.
  \<open>n\<close> is the size of \<open>x\<close> in units of \<open>2^-1074\<close>, the smallest positive double; a
  double keeps the 53 leading bits, so \<open>k\<close> low bits of \<open>n\<close> are dropped and the
  doubles around \<open>x\<close> are \<open>q = 2^k / 2^1074\<close> apart (below \<open>2^-1021\<close> no bit is
  dropped: the subnormal range). Magnitudes from \<open>2^1024\<close> on, where binary64 gives
  \<^verbatim>\<open>Infinity\<close>, are outside the model.
\<close>

definition round_half_even :: "real \<Rightarrow> int" where
  "round_half_even x =
     (let f = \<lfloor>x\<rfloor>; r = x - of_int f
      in if r < 1 / 2 then f
         else if 1 / 2 < r then f + 1
         else if even f then f else f + 1)"

definition to_double :: "real \<Rightarrow> real" where
  "to_double x =
     (let n = \<lfloor>\<bar>x\<bar> * 2 ^ 1074\<rfloor>;
          k = nat (bitlen n - 53);
          q = 2 ^ k / 2 ^ 1074
      in sgn x * (of_int (round_half_even (\<bar>x\<bar> / q)) * q))"

definition handleMouseMove :: "viewport \<Rightarrow> real \<Rightarrow> real \<Rightarrow> viewport" where
  "handleMouseMove s clientX clientY =
     (if \<not> isDragging s then s
      else (let dx = to_double (clientX - point_x (lastPos s));
                dy = to_double (clientY - point_y (lastPos s))
            in s\<lparr>lastPos := \<lparr>point_x = clientX, point_y = clientY\<rparr>,
                 offset := \<lparr>point_x = to_double (point_x (offset s) + dx),
                            point_y = to_double (point_y (offset s) + dy)\<rparr>\<rparr>))"

definition stopDragging :: "viewport \<Rightarrow> viewport" where
  "stopDragging s = s\<lparr>isDragging := False\<rparr>"

text \<open>
  The events the canvas element and the window deliver, with the fields the handlers
  read: \<^verbatim>\<open>onWheel\<close> (\<^verbatim>\<open>shiftKey\<close>, \<^verbatim>\<open>deltaY\<close>), \<^verbatim>\<open>onMouseDown\<close> and
  \<^verbatim>\<open>onMouseMove\<close> (\<^verbatim>\<open>clientX\<close>, \<^verbatim>\<open>clientY\<close>), \<^verbatim>\<open>onMouseUp\<close>,
  \<^verbatim>\<open>onMouseLeave\<close>, and the window's \<^verbatim>\<open>resize\<close> (\<^verbatim>\<open>innerWidth\<close>,
  \<^verbatim>\<open>innerHeight\<close>).
\<close>

datatype event =
    Wheel bool real
  | MouseDown real real
  | MouseMove real real
  | MouseUp
  | MouseLeave
  | Resize real real

fun dispatch :: "viewport \<Rightarrow> event \<Rightarrow> viewport" where
  "dispatch s (Wheel shiftKey deltaY) = handleWheel s shiftKey deltaY"
| "dispatch s (MouseDown clientX clientY) = handleMouseDown s clientX clientY"
| "dispatch s (MouseMove clientX clientY) = handleMouseMove s clientX clientY"
| "dispatch s MouseUp = stopDragging s"
| "dispatch s MouseLeave = stopDragging s"
| "dispatch s (Resize innerWidth innerHeight) = handleResize s innerWidth innerHeight"

text \<open>Events are handled one at a time, each on the state the previous one left.\<close>

definition run :: "viewport \<Rightarrow> event list \<Rightarrow> viewport" where
  "run s es = foldl dispatch s es"

definition wheel_events :: "(bool \<times> real) list \<Rightarrow> event list" where
  "wheel_events ws = map (\<lambda>(shiftKey, deltaY). Wheel shiftKey deltaY) ws"

definition move_events :: "(real \<times> real) list \<Rightarrow> event list" where
  "move_events ps = map (\<lambda>(clientX, clientY). MouseMove clientX clientY) ps"

text \<open>
  A whole number of pixels of magnitude at most \<open>2^51\<close>: sums and differences of three
  such numbers are integers below \<open>2^53\<close>, which binary64 holds exactly.
\<close>

definition pixel :: "real \<Rightarrow> bool" where
  "pixel v = (of_int \<lfloor>v\<rfloor> = v \<and> \<bar>v\<bar> \<le> 2 ^ 51)"

subsection \<open>The draw pass\<close>

text \<open>
  The current transformation matrix of a 2D context, \<^verbatim>\<open>[a c e; b d f; 0 0 1]\<close>, and
  the three context methods \<^verbatim>\<open>draw\<close> calls on it. They belong to the browser, not to
  the repository; they are modelled from the HTML canvas standard: \<^verbatim>\<open>setTransform\<close>
  replaces the matrix, \<^verbatim>\<open>scale\<close> and \<^verbatim>\<open>translate\<close> multiply it on the right, and a
  point \<open>(x, y)\<close> of the drawing space lands on the bitmap at
  \<open>(a x + c y + e, b x + d y + f)\<close>.
\<close>

record matrix =
  m_a :: real
  m_b :: real
  m_c :: real
  m_d :: real
  m_e :: real
  m_f :: real

definition setTransform :: "real \<Rightarrow> real \<Rightarrow> real \<Rightarrow> real \<Rightarrow> real \<Rightarrow> real \<Rightarrow> matrix" where
  "setTransform a b c d e f = \<lparr>m_a = a, m_b = b, m_c = c, m_d = d, m_e = e, m_f = f\<rparr>"

definition ctx_scale :: "real \<Rightarrow> real \<Rightarrow> matrix \<Rightarrow> matrix" where
  "ctx_scale sx sy m =
     m\<lparr>m_a := m_a m * sx, m_b := m_b m * sx, m_c := m_c m * sy, m_d := m_d m * sy\<rparr>"

definition ctx_translate :: "real \<Rightarrow> real \<Rightarrow> matrix \<Rightarrow> matrix" where
  "ctx_translate tx ty m =
     m\<lparr>m_e := m_a m * tx + m_c m * ty + m_e m, m_f := m_b m * tx + m_d m * ty + m_f m\<rparr>"

definition to_bitmap :: "matrix \<Rightarrow> real \<times> real \<Rightarrow> real \<times> real" where
  "to_bitmap m p =
     (m_a m * fst p + m_c m * snd p + m_e m, m_b m * fst p + m_d m * snd p + m_f m)"

text \<open>
  What \<^verbatim>\<open>draw\<close> reads from its environment: whether \<^verbatim>\<open>canvasRef.current\<close> and
  \<^verbatim>\<open>canvas.getContext("2d")\<close> are there, and \<^verbatim>\<open>window.devicePixelRatio\<close>.
\<close>

record env =
  has_canvas :: bool
  has_ctx :: bool
  devicePixelRatio :: real

text \<open>
  One frame: the bitmap size \<^verbatim>\<open>draw\<close> sets, the matrix it builds, the rectangle
  \<open>(x, y, w, h)\<close> it passes to \<^verbatim>\<open>clearRect\<close>, and the calls of \<^verbatim>\<open>drawTree\<close>.
\<close>

record frame =
  canvas_width :: real
  canvas_height :: real
  transform :: matrix
  cleared :: "real \<times> real \<times> real \<times> real"
  calls :: "draw_call list"

text \<open>
  \<^verbatim>\<open>draw\<close>. \<open>None\<close> is the early return without a canvas or a context.
  \<^verbatim>\<open>window.devicePixelRatio || 1\<close> is 1 for the falsy ratio 0.
\<close>

definition draw :: "env \<Rightarrow> user list \<Rightarrow> viewport \<Rightarrow> frame option" where
  "draw ev users s =
     (if \<not> has_canvas ev then None
      else if \<not> has_ctx ev then None
      else
        (let dpr = (if devicePixelRatio ev = 0 then 1 else devicePixelRatio ev);
             m0 = setTransform 1 0 0 1 0 0;
             m1 = ctx_scale dpr dpr m0;
             m2 = ctx_translate (point_x (offset s)) (point_y (offset s)) m1;
             m3 = ctx_scale (scale s) (scale s) m2
         in Some \<lparr>canvas_width = width (size_v s) * dpr,
                  canvas_height = height (size_v s) * dpr,
                  transform = m3,
                  cleared = (- point_x (offset s), - point_y (offset s),
                             width (size_v s), height (size_v s)),
                  calls = drawTree users (width (size_v s))\<rparr>))"

text \<open>
  Where the two corners \<open>(x, y)\<close> and \<open>(x + w, y + h)\<close> of the cleared rectangle land on
  the bitmap. The matrix of \<^verbatim>\<open>draw\<close> has no rotation or shear, so they are the corners
  of the cleared region.
\<close>

definition cleared_corners :: "frame \<Rightarrow> (real \<times> real) \<times> (real \<times> real)" where
  "cleared_corners fr =
     (case cleared fr of (x, y, w, h) \<Rightarrow>
        (to_bitmap (transform fr) (x, y), to_bitmap (transform fr) (x + w, y + h)))"

text \<open>
  The rectangle \<open>(x, y, w, h)\<close> of the drawing space that is visible on the surface: the
  one whose corners land on the corners \<open>(0, 0)\<close> and \<open>(canvas_width, canvas_height)\<close> of
  the bitmap, for a matrix without rotation or shear and with non-zero scale factors (as
  the matrix of \<^verbatim>\<open>draw\<close> is for a non-zero \<^verbatim>\<open>scale\<close>). A frame clears exactly the
  visible rectangle when that is the rectangle it passes to \<^verbatim>\<open>clearRect\<close>.
\<close>

definition visible_rect :: "frame \<Rightarrow> real \<times> real \<times> real \<times> real" where
  "visible_rect fr =
     (let m = transform fr;
          x0 = (0 - m_e m) / m_a m;
          y0 = (0 - m_f m) / m_d m;
          x1 = (canvas_width fr - m_e m) / m_a m;
          y1 = (canvas_height fr - m_f m) / m_d m
      in (x0, y0, x1 - x0, y1 - y0))"

definition clears_visible :: "frame \<Rightarrow> bool" where
  "clears_visible fr = (cleared fr = visible_rect fr)"

section \<open>Properties\<close>

subsection \<open>Evaluation of the scenario\<close>

lemma drawTree_USERS_1000:
  "drawTree USERS 1000 =
     [DrawUser \<lparr>user_id = ''1'', name = ''Parent'', parentId = None\<rparr> 420 100,
      DrawUser \<lparr>user_id = ''2'', name = ''Child 1'', parentId = Some ''1''\<rparr> 200 220,
      DrawLine 500 170 280 220,
      DrawUser \<lparr>user_id = ''3'', name = ''Child 2'', parentId = Some ''1''\<rparr> 420 220,
      DrawLine 500 170 500 220,
      DrawUser \<lparr>user_id = ''4'', name = ''Child 3'', parentId = Some ''1''\<rparr> 640 220,
      DrawLine 500 170 720 220]"
  by (simp add: drawTree_def USERS_def falsy_parentId_def NODE_WIDTH_def NODE_HEIGHT_def
      VERTICAL_GAP_def HORIZONTAL_GAP_def)

subsection \<open>Helper lemmas on the layout\<close>

lemma find_filter_eq: "find P xs = (case filter P xs of [] \<Rightarrow> None | x # _ \<Rightarrow> Some x)"
  by (induction xs) auto

lemma find_first:
  "list_all (\<lambda>u. \<not> P u) pre \<Longrightarrow> P r \<Longrightarrow> find P (pre @ r # post) = Some r"
  by (induction pre) auto

lemma entities_forEach:
  "map node_entity (layout_nodes (forEach_child cx py sx i cs)) = cs"
  by (induction cs arbitrary: i) (simp_all add: Let_def node_entity_def)

lemma layout_edges_forEach:
  "layout_edges (forEach_child cx py sx i cs) =
     map (\<lambda>n. (cx + NODE_WIDTH / 2, py + NODE_HEIGHT, node_x n + NODE_WIDTH / 2, node_y n))
       (layout_nodes (forEach_child cx py sx i cs))"
  by (induction cs arbitrary: i) (simp_all add: Let_def node_x_def node_y_def)

lemma child_xs_forEach:
  "map node_x (layout_nodes (forEach_child cx py sx i cs)) =
     map (\<lambda>k. sx + real k * HORIZONTAL_GAP) [i ..< i + length cs]"
proof (induction cs arbitrary: i)
  case Nil
  show ?case by simp
next
  case (Cons c cs)
  have "[i ..< i + length (c # cs)] = i # [Suc i ..< Suc i + length cs]"
    by (simp add: upt_rec)
  then show ?case using Cons.IH [of "Suc i"] by (simp add: Let_def node_x_def)
qed

lemma child_ys_forEach:
  "map node_y (layout_nodes (forEach_child cx py sx i cs)) =
     replicate (length cs) (py + VERTICAL_GAP)"
  by (induction cs arbitrary: i) (simp_all add: Let_def node_y_def)

lemma drawTree_root:
  assumes "find falsy_parentId users = Some r"
  shows "drawTree users w =
     DrawUser r (w / 2 - NODE_WIDTH / 2) 100
     # forEach_child (w / 2 - NODE_WIDTH / 2) 100
         (w / 2 - NODE_WIDTH / 2
            - ((real (length (filter (\<lambda>u. parentId u = Some (user_id r)) users)) - 1) * HORIZONTAL_GAP) / 2)
         0 (filter (\<lambda>u. parentId u = Some (user_id r)) users)"
  using assms by (simp add: drawTree_def Let_def)

lemma drawTree_no_root:
  "find falsy_parentId users = None \<Longrightarrow> drawTree users w = []"
  by (simp add: drawTree_def)

lemma layout_of_root:
  assumes "find falsy_parentId users = Some r"
  shows "layout_nodes (drawTree users w) = (r, w / 2 - 160 / 2, 100) # child_nodes (drawTree users w)"
    and "map node_entity (child_nodes (drawTree users w))
        = filter (\<lambda>u. parentId u = Some (user_id r)) users"
    and "layout_edges (drawTree users w)
        = map (\<lambda>n. (w / 2 - 160 / 2 + 160 / 2, 100 + 70, node_x n + 160 / 2, node_y n))
            (child_nodes (drawTree users w))"
    and "length (layout_edges (drawTree users w))
        = length (filter (\<lambda>u. parentId u = Some (user_id r)) users)"
proof -
  note t = drawTree_root [OF assms, of w]
  show n: "layout_nodes (drawTree users w) = (r, w / 2 - 160 / 2, 100) # child_nodes (drawTree users w)"
    by (simp add: t child_nodes_def NODE_WIDTH_def)
  show e: "map node_entity (child_nodes (drawTree users w))
        = filter (\<lambda>u. parentId u = Some (user_id r)) users"
    by (simp add: t child_nodes_def entities_forEach)
  show l: "layout_edges (drawTree users w)
        = map (\<lambda>n. (w / 2 - 160 / 2 + 160 / 2, 100 + 70, node_x n + 160 / 2, node_y n))
            (child_nodes (drawTree users w))"
    by (simp add: t child_nodes_def layout_edges_forEach NODE_WIDTH_def NODE_HEIGHT_def)
  have "length (layout_edges (drawTree users w)) = length (child_nodes (drawTree users w))"
    by (simp add: l)
  also have "\<dots> = length (map node_entity (child_nodes (drawTree users w)))" by simp
  also have "\<dots> = length (filter (\<lambda>u. parentId u = Some (user_id r)) users)"
    by (simp only: e)
  finally show "length (layout_edges (drawTree users w))
        = length (filter (\<lambda>u. parentId u = Some (user_id r)) users)" .
qed

lemma symmetric_around_spread:
  "symmetric_around c (map (\<lambda>k. c - (real n - 1) * g / 2 + real k * g) [0 ..< n])"
proof -
  define f where "f = (\<lambda>k. c - (real n - 1) * g / 2 + real k * g)"
  have "map (\<lambda>x. 2 * c - x) (map f [0 ..< n]) = rev (map f [0 ..< n])"
  proof (rule nth_equalityI)
    show "length (map (\<lambda>x. 2 * c - x) (map f [0 ..< n])) = length (rev (map f [0 ..< n]))"
      by simp
  next
    fix i assume "i < length (map (\<lambda>x. 2 * c - x) (map f [0 ..< n]))"
    then have i: "i < n" by simp
    have l: "map (\<lambda>x. 2 * c - x) (map f [0 ..< n]) ! i = 2 * c - f i"
      using i by simp
    have r: "rev (map f [0 ..< n]) ! i = f (n - Suc i)"
      using i by (simp add: rev_nth)
    have "real (n - Suc i) = real n - 1 - real i"
      using i by (simp add: of_nat_diff)
    then have "2 * c - f i = f (n - Suc i)"
      by (simp add: f_def algebra_simps)
    with l r show "map (\<lambda>x. 2 * c - x) (map f [0 ..< n]) ! i = rev (map f [0 ..< n]) ! i"
      by simp
  qed
  then show ?thesis by (simp add: symmetric_around_def f_def)
qed

lemma symmetric_around_shift:
  assumes "symmetric_around c xs"
  shows "symmetric_around (c + d) (map (\<lambda>x. x + d) xs)"
proof -
  have "map (\<lambda>x. 2 * (c + d) - x) (map (\<lambda>x. x + d) xs) = map (\<lambda>x. x + d) (map (\<lambda>x. 2 * c - x) xs)"
    by (simp add: algebra_simps)
  also have "\<dots> = map (\<lambda>x. x + d) (rev xs)"
    using assms by (simp only: symmetric_around_def)
  also have "\<dots> = rev (map (\<lambda>x. x + d) xs)"
    by (simp add: rev_map)
  finally show ?thesis by (simp only: symmetric_around_def)
qed

lemma length_gaps: "length (gaps xs) = length xs - 1"
  by (simp add: gaps_def)

lemma nth_gaps: "Suc i < length xs \<Longrightarrow> gaps xs ! i = xs ! Suc i - xs ! i"
  by (simp add: gaps_def nth_tl)

lemma gaps_spread:
  "gaps (map (\<lambda>k. s + real k * g) [0 ..< n]) = replicate (n - 1) g"
proof (rule nth_equalityI)
  show "length (gaps (map (\<lambda>k. s + real k * g) [0 ..< n])) = length (replicate (n - 1) g)"
    by (simp add: length_gaps)
next
  fix i assume "i < length (gaps (map (\<lambda>k. s + real k * g) [0 ..< n]))"
  then have i: "Suc i < n" by (simp add: length_gaps)
  then have "gaps (map (\<lambda>k. s + real k * g) [0 ..< n]) ! i = g"
    by (simp add: nth_gaps algebra_simps)
  then show "gaps (map (\<lambda>k. s + real k * g) [0 ..< n]) ! i = replicate (n - 1) g ! i"
    using i by simp
qed

lemma child_xs_of_root:
  assumes "find falsy_parentId users = Some r"
  shows "map node_x (child_nodes (drawTree users w)) =
     map (\<lambda>k. w / 2 - 160 / 2 - (real (length (child_nodes (drawTree users w))) - 1) * 220 / 2
               + real k * 220)
       [0 ..< length (child_nodes (drawTree users w))]"
proof -
  note t = drawTree_root [OF assms, of w]
  have "length (child_nodes (drawTree users w))
      = length (map node_entity (child_nodes (drawTree users w)))"
    by simp
  also have "\<dots> = length (filter (\<lambda>u. parentId u = Some (user_id r)) users)"
    by (simp only: layout_of_root(2) [OF assms])
  finally have n: "length (child_nodes (drawTree users w))
      = length (filter (\<lambda>u. parentId u = Some (user_id r)) users)" .
  show ?thesis
    unfolding n
    by (simp add: t child_nodes_def child_xs_forEach NODE_WIDTH_def HORIZONTAL_GAP_def)
qed

subsection \<open>Helper lemmas on rounding\<close>

lemma round_half_even_of_int: "round_half_even (of_int m) = m"
  by (simp add: round_half_even_def)

lemma to_double_spacing:
  fixes x :: real and j :: nat
  assumes "2 ^ 52 \<le> x * 2 ^ j" and "x * 2 ^ j < 2 ^ 53" and "j \<le> 1074"
  shows "to_double x = of_int (round_half_even (x * 2 ^ j)) / 2 ^ j"
proof -
  have x: "0 < x"
  proof (rule ccontr)
    assume "\<not> 0 < x"
    then have "x * 2 ^ j \<le> 0" by (simp add: mult_le_0_iff)
    with assms(1) show False
      by (smt (verit) zero_less_power)
  qed
  define n where "n = \<lfloor>\<bar>x\<bar> * 2 ^ 1074\<rfloor>"
  define d where "d = 1074 - j"
  have e: "\<bar>x\<bar> * 2 ^ 1074 = (x * 2 ^ j) * 2 ^ d"
    using x assms(3) by (simp add: power_add [symmetric] d_def)
  have lo: "(2::real) ^ (52 + d) \<le> \<bar>x\<bar> * 2 ^ 1074"
    unfolding e power_add using assms(1) by (intro mult_right_mono) simp_all
  have hi: "\<bar>x\<bar> * 2 ^ 1074 < (2::real) ^ (53 + d)"
    unfolding e power_add using assms(2) by (intro mult_strict_right_mono) simp_all
  have nlo: "2 ^ (52 + d) \<le> n"
  proof -
    have "of_int (2 ^ (52 + d)) \<le> \<bar>x\<bar> * 2 ^ 1074"
      using lo by simp
    then show ?thesis unfolding n_def by (simp only: le_floor_iff)
  qed
  have nhi: "n < 2 ^ (53 + d)"
  proof -
    have "\<bar>x\<bar> * 2 ^ 1074 < of_int (2 ^ (53 + d))"
      using hi by simp
    then show ?thesis unfolding n_def by (simp only: floor_less_iff)
  qed
  define w where "w = 53 + d"
  have "bitlen n \<le> int w"
    using nhi by (simp add: bitlen_le_iff_power w_def [symmetric])
  moreover have "int w \<le> bitlen n"
  proof -
    have "nat (int w) - 1 = 52 + d" by (simp add: w_def)
    then have "2 ^ (nat (int w) - 1) \<le> n" using nlo by simp
    then show ?thesis by (simp only: bitlen_ge_iff_power) simp
  qed
  ultimately have b: "bitlen n = int w" by simp
  have k: "nat (bitlen n - 53) = 1074 - j"
    by (simp add: b w_def d_def)
  have q: "(2::real) ^ (1074 - j) / 2 ^ 1074 = 1 / 2 ^ j"
    using assms(3) by (simp add: power_diff)
  show ?thesis
    unfolding to_double_def Let_def n_def [symmetric] k q
    using x by simp
qed

lemma to_double_dyadic:
  fixes m :: int and j :: nat
  assumes "\<bar>m\<bar> < 2 ^ 53" and "j \<le> 1074"
  shows "to_double (of_int m / 2 ^ j) = of_int m / 2 ^ j"
proof (cases "m = 0")
  case True
  then show ?thesis by (simp add: to_double_def)
next
  case False
  define a where "a = \<bar>m\<bar>"
  have a: "0 < a" "a < 2 ^ 53" using False assms(1) by (simp_all add: a_def)
  define x :: real where "x = of_int m / 2 ^ j"
  have ax: "\<bar>x\<bar> = of_int a / 2 ^ j"
    by (simp add: x_def a_def)
  have "\<bar>x\<bar> * 2 ^ 1074 = of_int a * 2 ^ (1074 - j)"
    unfolding ax using assms(2) by (simp add: power_diff)
  also have "\<dots> = of_int (a * 2 ^ (1074 - j))" by simp
  finally have n: "\<lfloor>\<bar>x\<bar> * 2 ^ 1074\<rfloor> = a * 2 ^ (1074 - j)"
    by (simp only: floor_of_int)
  have bl: "bitlen (a * 2 ^ (1074 - j)) = bitlen a + int (1074 - j)"
    using a(1) by simp
  have b53: "bitlen a \<le> 53"
    using a(2) by (simp add: bitlen_le_iff_power)
  define k where "k = nat (bitlen (a * 2 ^ (1074 - j)) - 53)"
  have kle: "k \<le> 1074 - j"
    unfolding k_def bl using b53 by simp
  have "\<bar>x\<bar> / (2 ^ k / 2 ^ 1074) = of_int a * (2 ^ (1074 - j) / 2 ^ k)"
    unfolding ax using assms(2) by (simp add: power_diff)
  also have "(2::real) ^ (1074 - j) / 2 ^ k = 2 ^ (1074 - j - k)"
  proof -
    have "(2::real) \<noteq> 0" by simp
    from power_diff [OF this kle] show ?thesis by simp
  qed
  also have "of_int a * (2::real) ^ (1074 - j - k) = of_int (a * 2 ^ (1074 - j - k))"
    by simp
  finally have r: "round_half_even (\<bar>x\<bar> / (2 ^ k / 2 ^ 1074)) = a * 2 ^ (1074 - j - k)"
    by (simp only: round_half_even_of_int)
  have "of_int (a * 2 ^ (1074 - j - k)) * ((2::real) ^ k / 2 ^ 1074)
      = of_int a * (2 ^ (1074 - j - k) * 2 ^ k) / 2 ^ 1074"
    by simp
  also have "(2::real) ^ (1074 - j - k) * 2 ^ k = 2 ^ (1074 - j)"
    using kle by (simp add: power_add [symmetric])
  also have "of_int a * (2::real) ^ (1074 - j) / 2 ^ 1074 = of_int a / 2 ^ j"
    using assms(2) by (simp add: power_diff)
  finally have v: "of_int (a * 2 ^ (1074 - j - k)) * ((2::real) ^ k / 2 ^ 1074) = \<bar>x\<bar>"
    by (simp add: ax)
  have "to_double x = sgn x * \<bar>x\<bar>"
    unfolding to_double_def Let_def n k_def [symmetric] r v ..
  then show ?thesis
    by (simp add: x_def [symmetric] sgn_mult_abs)
qed

lemma to_double_of_int:
  assumes "\<bar>m\<bar> < 2 ^ 53"
  shows "to_double (of_int m) = of_int m"
  using to_double_dyadic [OF assms, of 0] by simp

lemma to_double_Ints:
  assumes "v \<in> \<int>" and "\<bar>v\<bar> < 2 ^ 53"
  shows "to_double v = v"
proof -
  from assms(1) obtain m :: int where v: "v = of_int m" by (rule Ints_cases)
  have "\<bar>of_int m :: real\<bar> < of_int (2 ^ 53)"
    using assms(2) by (simp add: v)
  then have "\<bar>m\<bar> < 2 ^ 53"
    by (simp only: of_int_abs [symmetric] of_int_less_iff)
  then show ?thesis
    unfolding v by (rule to_double_of_int)
qed

lemma pixel_Ints: "pixel v \<Longrightarrow> v \<in> \<int>"
  by (metis pixel_def Ints_of_int)

lemma pixel_bound: "pixel v \<Longrightarrow> \<bar>v\<bar> \<le> 2 ^ 51"
  by (simp add: pixel_def)

lemma drag_step_exact:
  assumes "c \<in> \<int>" and "pixel l" and "pixel x" and "\<bar>c - l\<bar> \<le> 2 ^ 52"
  shows "to_double (c + to_double (x - l)) = c + (x - l)"
proof -
  have d: "x - l \<in> \<int>"
    using assms(2) assms(3) by (simp add: pixel_Ints)
  have "\<bar>x - l\<bar> \<le> \<bar>x\<bar> + \<bar>l\<bar>" by simp
  also have "\<dots> \<le> 2 ^ 51 + 2 ^ 51"
    using pixel_bound [OF assms(2)] pixel_bound [OF assms(3)] by (rule add_mono [rotated])
  finally have "\<bar>x - l\<bar> < 2 ^ 53" by simp
  with d have e: "to_double (x - l) = x - l" by (rule to_double_Ints)
  have s: "c + (x - l) \<in> \<int>"
    using assms(1) d by simp
  have "\<bar>c + (x - l)\<bar> = \<bar>(c - l) + x\<bar>" by simp
  also have "\<dots> \<le> \<bar>c - l\<bar> + \<bar>x\<bar>" by (rule abs_triangle_ineq)
  also have "\<dots> \<le> 2 ^ 52 + 2 ^ 51"
    using assms(4) pixel_bound [OF assms(3)] by (rule add_mono)
  finally have "\<bar>c + (x - l)\<bar> < 2 ^ 53" by simp
  with s have "to_double (c + (x - l)) = c + (x - l)" by (rule to_double_Ints)
  then show ?thesis by (simp only: e)
qed

subsection \<open>Helper lemmas on the input handlers\<close>

lemma run_Nil: "run s [] = s"
  by (simp add: run_def)

lemma run_Cons: "run s (e # es) = run (dispatch s e) es"
  by (simp add: run_def)

lemma run_append: "run s (es @ fs) = run (run s es) fs"
  by (simp add: run_def)

lemma handleWheel_scale_range:
  assumes "0.25 \<le> scale s" and "scale s \<le> 4"
  shows "0.25 \<le> scale (handleWheel s shiftKey deltaY) \<and> scale (handleWheel s shiftKey deltaY) \<le> 4"
proof (cases shiftKey)
  case True
  then show ?thesis using assms by (simp add: handleWheel_def)
next
  case False
  define v where "v = scale s - deltaY * 0.001"
  have "(0.25 :: real) \<le> max 0.25 v"
    by (rule max.cobounded1)
  moreover have "(0.25 :: real) \<le> 4"
    by simp
  ultimately have lo: "0.25 \<le> min 4 (max 0.25 v)"
    by (rule min.boundedI [rotated])
  have hi: "min 4 (max 0.25 v) \<le> 4"
    by (rule min.cobounded1)
  have "scale (handleWheel s shiftKey deltaY) = min 4 (max 0.25 v)"
    using False by (simp add: handleWheel_def Let_def v_def)
  with lo hi show ?thesis by simp
qed

lemma dispatch_scale_range:
  assumes "0.25 \<le> scale s" and "scale s \<le> 4"
  shows "0.25 \<le> scale (dispatch s e) \<and> scale (dispatch s e) \<le> 4"
proof (cases e)
  case (Wheel shiftKey deltaY)
  then show ?thesis using handleWheel_scale_range [OF assms] by simp
next
  case (MouseDown x y)
  then show ?thesis using assms by (simp add: handleMouseDown_def)
next
  case (MouseMove x y)
  then show ?thesis using assms by (simp add: handleMouseMove_def Let_def)
next
  case MouseUp
  then show ?thesis using assms by (simp add: stopDragging_def)
next
  case MouseLeave
  then show ?thesis using assms by (simp add: stopDragging_def)
next
  case (Resize w h)
  then show ?thesis using assms by (simp add: handleResize_def)
qed

lemma run_scale_range:
  assumes "0.25 \<le> scale s" and "scale s \<le> 4"
  shows "0.25 \<le> scale (run s es) \<and> scale (run s es) \<le> 4"
  using assms
proof (induction es arbitrary: s)
  case Nil
  then show ?case by (simp add: run_Nil)
next
  case (Cons e es)
  have "0.25 \<le> scale (dispatch s e) \<and> scale (dispatch s e) \<le> 4"
    using Cons.prems by (rule dispatch_scale_range)
  then show ?case
    using Cons.IH [of "dispatch s e"] by (simp add: run_Cons)
qed

lemma run_moves_dragging:
  assumes "isDragging s"
    and "point_x (offset s) \<in> \<int>" and "point_y (offset s) \<in> \<int>"
    and "pixel (point_x (lastPos s))" and "pixel (point_y (lastPos s))"
    and "\<bar>point_x (offset s) - point_x (lastPos s)\<bar> \<le> 2 ^ 52"
    and "\<bar>point_y (offset s) - point_y (lastPos s)\<bar> \<le> 2 ^ 52"
    and "list_all (\<lambda>p. pixel (fst p) \<and> pixel (snd p)) ps"
  shows "isDragging (run s (move_events ps))
    \<and> scale (run s (move_events ps)) = scale s
    \<and> size_v (run s (move_events ps)) = size_v s
    \<and> point_x (lastPos (run s (move_events ps)))
        = fst (last ((point_x (lastPos s), point_y (lastPos s)) # ps))
    \<and> point_y (lastPos (run s (move_events ps)))
        = snd (last ((point_x (lastPos s), point_y (lastPos s)) # ps))
    \<and> point_x (offset (run s (move_events ps)))
        = point_x (offset s)
          + (fst (last ((point_x (lastPos s), point_y (lastPos s)) # ps)) - point_x (lastPos s))
    \<and> point_y (offset (run s (move_events ps)))
        = point_y (offset s)
          + (snd (last ((point_x (lastPos s), point_y (lastPos s)) # ps)) - point_y (lastPos s))"
  using assms
proof (induction ps arbitrary: s)
  case Nil
  then show ?case by (simp add: move_events_def run_Nil)
next
  case (Cons p ps)
  obtain x y where p: "p = (x, y)" by (cases p)
  have px: "pixel x" and py: "pixel y" and rest: "list_all (\<lambda>p. pixel (fst p) \<and> pixel (snd p)) ps"
    using Cons.prems(8) by (simp_all add: p)
  define s' where "s' = handleMouseMove s x y"
  have ex: "to_double (point_x (offset s) + to_double (x - point_x (lastPos s)))
      = point_x (offset s) + (x - point_x (lastPos s))"
    using Cons.prems(2) Cons.prems(4) px Cons.prems(6) by (rule drag_step_exact)
  have ey: "to_double (point_y (offset s) + to_double (y - point_y (lastPos s)))
      = point_y (offset s) + (y - point_y (lastPos s))"
    using Cons.prems(3) Cons.prems(5) py Cons.prems(7) by (rule drag_step_exact)
  have d: "isDragging s'"
    and sc: "scale s' = scale s"
    and sz: "size_v s' = size_v s"
    and lx: "point_x (lastPos s') = x" and ly: "point_y (lastPos s') = y"
    using Cons.prems(1) by (simp_all add: s'_def handleMouseMove_def Let_def)
  have ox: "point_x (offset s') = point_x (offset s) + (x - point_x (lastPos s))"
    using Cons.prems(1) by (simp add: s'_def handleMouseMove_def Let_def ex)
  have oy: "point_y (offset s') = point_y (offset s) + (y - point_y (lastPos s))"
    using Cons.prems(1) by (simp add: s'_def handleMouseMove_def Let_def ey)
  have ix: "point_x (offset s') \<in> \<int>"
    unfolding ox using Cons.prems(2) Cons.prems(4) px by (simp add: pixel_Ints)
  have iy: "point_y (offset s') \<in> \<int>"
    unfolding oy using Cons.prems(3) Cons.prems(5) py by (simp add: pixel_Ints)
  have bx: "\<bar>point_x (offset s') - point_x (lastPos s')\<bar> \<le> 2 ^ 52"
    unfolding ox lx using Cons.prems(6) by simp
  have by': "\<bar>point_y (offset s') - point_y (lastPos s')\<bar> \<le> 2 ^ 52"
    unfolding oy ly using Cons.prems(7) by simp
  have plx: "pixel (point_x (lastPos s'))" and ply: "pixel (point_y (lastPos s'))"
    using px py by (simp_all add: lx ly)
  have r: "run s (move_events (p # ps)) = run s' (move_events ps)"
    by (simp add: move_events_def run_Cons p s'_def)
  have l: "last ((point_x (lastPos s), point_y (lastPos s)) # p # ps)
      = last ((point_x (lastPos s'), point_y (lastPos s')) # ps)"
    by (simp add: lx ly p)
  show ?case
    unfolding r l using Cons.IH [OF d ix iy plx ply bx by' rest] by (simp add: sc sz lx ly ox oy)
qed

subsection \<open>Helper lemmas on the draw pass\<close>

lemma draw_Some:
  assumes "has_canvas ev" and "has_ctx ev"
  shows "\<exists>fr. draw ev users s = Some fr"
  using assms by (simp add: draw_def Let_def)

lemma draw_transform:
  assumes "draw ev users s = Some fr"
  shows "transform fr =
     \<lparr>m_a = (if devicePixelRatio ev = 0 then 1 else devicePixelRatio ev) * scale s,
      m_b = 0, m_c = 0,
      m_d = (if devicePixelRatio ev = 0 then 1 else devicePixelRatio ev) * scale s,
      m_e = (if devicePixelRatio ev = 0 then 1 else devicePixelRatio ev) * point_x (offset s),
      m_f = (if devicePixelRatio ev = 0 then 1 else devicePixelRatio ev) * point_y (offset s)\<rparr>"
  using assms
  by (auto simp add: draw_def Let_def setTransform_def ctx_scale_def ctx_translate_def
      split: if_splits)

lemma draw_cleared_corners:
  assumes "draw ev users s = Some fr"
  shows "cleared_corners fr =
     (((if devicePixelRatio ev = 0 then 1 else devicePixelRatio ev) * (point_x (offset s) * (1 - scale s)),
       (if devicePixelRatio ev = 0 then 1 else devicePixelRatio ev) * (point_y (offset s) * (1 - scale s))),
      ((if devicePixelRatio ev = 0 then 1 else devicePixelRatio ev)
          * (point_x (offset s) * (1 - scale s) + scale s * width (size_v s)),
       (if devicePixelRatio ev = 0 then 1 else devicePixelRatio ev)
          * (point_y (offset s) * (1 - scale s) + scale s * height (size_v s))))"
proof -
  have c: "cleared fr = (- point_x (offset s), - point_y (offset s),
                             width (size_v s), height (size_v s))"
    using assms by (auto simp add: draw_def Let_def split: if_splits)
  show ?thesis
    by (simp add: cleared_corners_def c draw_transform [OF assms] to_bitmap_def algebra_simps)
qed

lemma draw_visible_rect:
  assumes "draw ev users s = Some fr" and "scale s \<noteq> 0"
  shows "visible_rect fr =
     (- point_x (offset s) / scale s, - point_y (offset s) / scale s,
      width (size_v s) / scale s, height (size_v s) / scale s)"
proof -
  define dpr where "dpr = (if devicePixelRatio ev = 0 then 1 else devicePixelRatio ev)"
  have dpr: "dpr \<noteq> 0" by (simp add: dpr_def)
  have cw: "canvas_width fr = width (size_v s) * dpr" and ch: "canvas_height fr = height (size_v s) * dpr"
    using assms(1) by (auto simp add: draw_def Let_def dpr_def split: if_splits)
  note t = draw_transform [OF assms(1), folded dpr_def]
  have x: "(width (size_v s) * dpr - dpr * point_x (offset s)) / (dpr * scale s)
      - (0 - dpr * point_x (offset s)) / (dpr * scale s) = width (size_v s) / scale s"
    using dpr assms(2) by (simp add: field_simps)
  have y: "(height (size_v s) * dpr - dpr * point_y (offset s)) / (dpr * scale s)
      - (0 - dpr * point_y (offset s)) / (dpr * scale s) = height (size_v s) / scale s"
    using dpr assms(2) by (simp add: field_simps)
  have "visible_rect fr =
     ((0 - dpr * point_x (offset s)) / (dpr * scale s),
      (0 - dpr * point_y (offset s)) / (dpr * scale s),
      (width (size_v s) * dpr - dpr * point_x (offset s)) / (dpr * scale s)
        - (0 - dpr * point_x (offset s)) / (dpr * scale s),
      (height (size_v s) * dpr - dpr * point_y (offset s)) / (dpr * scale s)
        - (0 - dpr * point_y (offset s)) / (dpr * scale s))"
    by (simp add: visible_rect_def Let_def t cw ch)
  also have "\<dots> = (- point_x (offset s) / scale s, - point_y (offset s) / scale s,
      width (size_v s) / scale s, height (size_v s) / scale s)"
    unfolding x y using dpr by simp
  finally show ?thesis .
qed

lemma draw_clears_visible_iff:
  assumes "draw ev users s = Some fr" and "0 < scale s" and "0 < width (size_v s)"
  shows "clears_visible fr \<longleftrightarrow> scale s = 1"
proof -
  have c: "cleared fr = (- point_x (offset s), - point_y (offset s),
                             width (size_v s), height (size_v s))"
    using assms(1) by (auto simp add: draw_def Let_def split: if_splits)
  have z: "scale s \<noteq> 0" using assms(2) by simp
  note v = draw_visible_rect [OF assms(1) z]
  show ?thesis
  proof
    assume "clears_visible fr"
    then have "width (size_v s) = width (size_v s) / scale s"
      by (simp add: clears_visible_def c v)
    then show "scale s = 1"
      using assms(2) assms(3) by (simp add: field_simps)
  next
    assume "scale s = 1"
    then show "clears_visible fr"
      by (simp add: clears_visible_def c v)
  qed
qed

subsection \<open>C1: one root, its children in input order, one edge per child\<close>

text \<open>
  Claim C1. For every entity set with exactly one rootless entity and N entities whose
  \<^verbatim>\<open>parentId\<close> equals the root's id, the layout has exactly one root node, N child
  nodes in input order and N edges, each from the root's bottom-centre
  \<open>(rootX + 160/2, rootY + 70)\<close> to the child's top-centre \<open>(childX + 160/2, childY)\<close>.

  The code selects the root with \<^verbatim>\<open>!u.parentId\<close>, which also holds for an empty
  \<^verbatim>\<open>parentId\<close>. The statement proved: when exactly one entity \<open>r\<close> has an absent or
  empty \<^verbatim>\<open>parentId\<close>, the nodes are the node of \<open>r\<close> at \<open>(w/2 - 160/2, 100)\<close>
  followed by one node per entity whose \<^verbatim>\<open>parentId\<close> is the id of \<open>r\<close>, in input
  order, and the edges are, in the same order, the segments from the root's bottom-centre
  to each child's top-centre.
\<close>

theorem layout_single_root:
  assumes "filter falsy_parentId users = [r]"
  shows "layout_nodes (drawTree users w) = (r, w / 2 - 160 / 2, 100) # child_nodes (drawTree users w)
    \<and> map node_entity (child_nodes (drawTree users w))
        = filter (\<lambda>u. parentId u = Some (user_id r)) users
    \<and> length (layout_edges (drawTree users w))
        = length (filter (\<lambda>u. parentId u = Some (user_id r)) users)
    \<and> layout_edges (drawTree users w)
        = map (\<lambda>n. (w / 2 - 160 / 2 + 160 / 2, 100 + 70, node_x n + 160 / 2, node_y n))
            (child_nodes (drawTree users w))"
proof -
  have f: "find falsy_parentId users = Some r"
    using assms by (simp add: find_filter_eq)
  show ?thesis
    using layout_of_root [OF f, of w] by blast
qed

text \<open>The theorem at the entity set of the source and width 1000.\<close>

theorem layout_single_root_witness:
  "filter falsy_parentId USERS = [\<lparr>user_id = ''1'', name = ''Parent'', parentId = None\<rparr>]
   \<and> layout_nodes (drawTree USERS 1000)
       = (\<lparr>user_id = ''1'', name = ''Parent'', parentId = None\<rparr>, 420, 100)
         # child_nodes (drawTree USERS 1000)
   \<and> map node_entity (child_nodes (drawTree USERS 1000))
       = [\<lparr>user_id = ''2'', name = ''Child 1'', parentId = Some ''1''\<rparr>,
          \<lparr>user_id = ''3'', name = ''Child 2'', parentId = Some ''1''\<rparr>,
          \<lparr>user_id = ''4'', name = ''Child 3'', parentId = Some ''1''\<rparr>]
   \<and> length (layout_edges (drawTree USERS 1000)) = 3"
proof -
  have h: "filter falsy_parentId USERS = [\<lparr>user_id = ''1'', name = ''Parent'', parentId = None\<rparr>]"
    by (simp add: USERS_def falsy_parentId_def)
  have c: "filter (\<lambda>u. parentId u = Some ''1'') USERS
       = [\<lparr>user_id = ''2'', name = ''Child 1'', parentId = Some ''1''\<rparr>,
          \<lparr>user_id = ''3'', name = ''Child 2'', parentId = Some ''1''\<rparr>,
          \<lparr>user_id = ''4'', name = ''Child 3'', parentId = Some ''1''\<rparr>]"
    by (simp add: USERS_def)
  note t = layout_single_root [OF h, of 1000]
  have n: "layout_nodes (drawTree USERS 1000)
       = (\<lparr>user_id = ''1'', name = ''Parent'', parentId = None\<rparr>, 420, 100)
         # child_nodes (drawTree USERS 1000)"
    using t [THEN conjunct1] by simp
  have e: "map node_entity (child_nodes (drawTree USERS 1000))
       = [\<lparr>user_id = ''2'', name = ''Child 1'', parentId = Some ''1''\<rparr>,
          \<lparr>user_id = ''3'', name = ''Child 2'', parentId = Some ''1''\<rparr>,
          \<lparr>user_id = ''4'', name = ''Child 3'', parentId = Some ''1''\<rparr>]"
    using t [THEN conjunct2, THEN conjunct1] c by simp
  have l: "length (layout_edges (drawTree USERS 1000)) = 3"
    using t [THEN conjunct2, THEN conjunct2, THEN conjunct1] c by simp
  show ?thesis
    using h n e l by blast
qed

text \<open>
  With \<open>rootless\<close> read as "has no \<^verbatim>\<open>parentId\<close>", the claim fails when an entity
  with an empty \<^verbatim>\<open>parentId\<close> comes before the root. In the first list exactly one
  entity has no \<^verbatim>\<open>parentId\<close> and one entity references it, yet the only node is the
  one of the entity with the empty \<^verbatim>\<open>parentId\<close> and there is no edge. In the second
  list the id of the root is the empty string and the other entity references it, so every
  entity but the root references the root; the child comes first, is taken for the root,
  and again there is one node and no edge.
\<close>

theorem layout_single_root_counterexample:
  "filter (\<lambda>u. parentId u = None)
      [\<lparr>user_id = ''0'', name = ''Stray'', parentId = Some ''''\<rparr>,
       \<lparr>user_id = ''1'', name = ''Parent'', parentId = None\<rparr>,
       \<lparr>user_id = ''2'', name = ''Child'', parentId = Some ''1''\<rparr>]
     = [\<lparr>user_id = ''1'', name = ''Parent'', parentId = None\<rparr>]
   \<and> filter (\<lambda>u. parentId u = Some ''1'')
      [\<lparr>user_id = ''0'', name = ''Stray'', parentId = Some ''''\<rparr>,
       \<lparr>user_id = ''1'', name = ''Parent'', parentId = None\<rparr>,
       \<lparr>user_id = ''2'', name = ''Child'', parentId = Some ''1''\<rparr>]
     = [\<lparr>user_id = ''2'', name = ''Child'', parentId = Some ''1''\<rparr>]
   \<and> layout_nodes (drawTree
      [\<lparr>user_id = ''0'', name = ''Stray'', parentId = Some ''''\<rparr>,
       \<lparr>user_id = ''1'', name = ''Parent'', parentId = None\<rparr>,
       \<lparr>user_id = ''2'', name = ''Child'', parentId = Some ''1''\<rparr>] 1000)
     = [(\<lparr>user_id = ''0'', name = ''Stray'', parentId = Some ''''\<rparr>, 420, 100)]
   \<and> layout_edges (drawTree
      [\<lparr>user_id = ''0'', name = ''Stray'', parentId = Some ''''\<rparr>,
       \<lparr>user_id = ''1'', name = ''Parent'', parentId = None\<rparr>,
       \<lparr>user_id = ''2'', name = ''Child'', parentId = Some ''1''\<rparr>] 1000)
     = []
   \<and> filter (\<lambda>u. parentId u = None)
      [\<lparr>user_id = ''c'', name = ''Child'', parentId = Some ''''\<rparr>,
       \<lparr>user_id = '''', name = ''Root'', parentId = None\<rparr>]
     = [\<lparr>user_id = '''', name = ''Root'', parentId = None\<rparr>]
   \<and> filter (\<lambda>u. parentId u = Some '''')
      [\<lparr>user_id = ''c'', name = ''Child'', parentId = Some ''''\<rparr>,
       \<lparr>user_id = '''', name = ''Root'', parentId = None\<rparr>]
     = [\<lparr>user_id = ''c'', name = ''Child'', parentId = Some ''''\<rparr>]
   \<and> layout_nodes (drawTree
      [\<lparr>user_id = ''c'', name = ''Child'', parentId = Some ''''\<rparr>,
       \<lparr>user_id = '''', name = ''Root'', parentId = None\<rparr>] 1000)
     = [(\<lparr>user_id = ''c'', name = ''Child'', parentId = Some ''''\<rparr>, 420, 100)]
   \<and> layout_edges (drawTree
      [\<lparr>user_id = ''c'', name = ''Child'', parentId = Some ''''\<rparr>,
       \<lparr>user_id = '''', name = ''Root'', parentId = None\<rparr>] 1000)
     = []"
  by (simp add: drawTree_def falsy_parentId_def NODE_WIDTH_def)

subsection \<open>C2: the scenario at width 1000\<close>

text \<open>
  Claim C2. For the four entities of the source and \<open>surfaceWidth = 1000\<close>, the root is at
  \<open>x = 420, y = 100\<close> and the three children are at \<open>y = 220\<close> with x-values 280, 500,
  720, starting at \<open>startX = rootCenterX - (childCount - 1) * 220 / 2\<close> and stepping by
  220.

  The code computes \<^verbatim>\<open>startX\<close> from \<^verbatim>\<open>centerX\<close>, which is the x of the root node
  (its left edge, 420), not the x of its centre (500). The statement proved: the root node
  is at \<open>(420, 100)\<close>; the child nodes are at \<open>y = 220\<close> with x-values 200, 420, 640,
  that is \<open>startX = rootX - (childCount - 1) * 220 / 2 = 200\<close> stepping by 220; the
  values 280, 500, 720 are the x of the children's top-centre points, \<open>x + 160/2\<close>,
  where the three edges from the root's bottom-centre \<open>(500, 170)\<close> end.
\<close>

theorem scenario_layout:
  "layout_nodes (drawTree USERS 1000) =
     [(\<lparr>user_id = ''1'', name = ''Parent'', parentId = None\<rparr>, 420, 100),
      (\<lparr>user_id = ''2'', name = ''Child 1'', parentId = Some ''1''\<rparr>, 200, 220),
      (\<lparr>user_id = ''3'', name = ''Child 2'', parentId = Some ''1''\<rparr>, 420, 220),
      (\<lparr>user_id = ''4'', name = ''Child 3'', parentId = Some ''1''\<rparr>, 640, 220)]
   \<and> map node_x (child_nodes (drawTree USERS 1000))
       = map (\<lambda>i. (420 - (3 - 1) * 220 / 2) + real i * 220) [0 ..< 3]
   \<and> map (\<lambda>n. node_x n + 160 / 2) (child_nodes (drawTree USERS 1000)) = [280, 500, 720]
   \<and> layout_edges (drawTree USERS 1000)
       = [(500, 170, 280, 220), (500, 170, 500, 220), (500, 170, 720, 220)]"
  by (simp add: drawTree_USERS_1000 child_nodes_def node_x_def upt_rec)

text \<open>
  As stated the claim fails: the x-values of the child nodes are not 280, 500, 720.
\<close>

theorem scenario_layout_counterexample:
  "map node_x (child_nodes (drawTree USERS 1000)) = [200, 420, 640]
   \<and> map node_x (child_nodes (drawTree USERS 1000)) \<noteq> [280, 500, 720]"
  by (simp add: drawTree_USERS_1000 child_nodes_def node_x_def)

subsection \<open>C3: no root, nothing drawn\<close>

text \<open>
  Claim C3. For every entity set in which no entity lacks a \<^verbatim>\<open>parentId\<close>, the layout
  has no node and no edge and the renderer draws nothing; the case is not an error.

  The code looks for the root with \<^verbatim>\<open>!u.parentId\<close>, so an entity with an empty
  \<^verbatim>\<open>parentId\<close> is a root too. The statement proved: when no entity has an absent or
  empty \<^verbatim>\<open>parentId\<close>, the layout has no node and no edge, no canvas primitive is
  issued, and \<^verbatim>\<open>draw\<close> completes its frame (with no call of the tree) whenever it has
  a canvas and a context.
\<close>

theorem no_root_empty_layout:
  assumes "filter falsy_parentId users = []"
  shows "layout_nodes (drawTree users w) = [] \<and> layout_edges (drawTree users w) = []
    \<and> paint (drawTree users w) = []
    \<and> map_option calls (draw ev users s)
        = (if has_canvas ev \<and> has_ctx ev then Some [] else None)"
proof -
  have "find falsy_parentId users = None"
    using assms by (simp add: find_filter_eq)
  then have e: "\<And>w. drawTree users w = []"
    by (rule drawTree_no_root)
  have "map_option calls (draw ev users s)
        = (if has_canvas ev \<and> has_ctx ev then Some [] else None)"
    by (simp add: draw_def Let_def e)
  then show ?thesis by (simp add: e)
qed

text \<open>The theorem at two entities that both reference an entity \<open>1\<close>.\<close>

theorem no_root_empty_layout_witness:
  "filter falsy_parentId
      [\<lparr>user_id = ''2'', name = ''Child 1'', parentId = Some ''1''\<rparr>,
       \<lparr>user_id = ''3'', name = ''Child 2'', parentId = Some ''1''\<rparr>] = []
   \<and> layout_nodes (drawTree
      [\<lparr>user_id = ''2'', name = ''Child 1'', parentId = Some ''1''\<rparr>,
       \<lparr>user_id = ''3'', name = ''Child 2'', parentId = Some ''1''\<rparr>] 1000) = []
   \<and> layout_edges (drawTree
      [\<lparr>user_id = ''2'', name = ''Child 1'', parentId = Some ''1''\<rparr>,
       \<lparr>user_id = ''3'', name = ''Child 2'', parentId = Some ''1''\<rparr>] 1000) = []
   \<and> paint (drawTree
      [\<lparr>user_id = ''2'', name = ''Child 1'', parentId = Some ''1''\<rparr>,
       \<lparr>user_id = ''3'', name = ''Child 2'', parentId = Some ''1''\<rparr>] 1000) = []"
proof -
  have h: "filter falsy_parentId
      [\<lparr>user_id = ''2'', name = ''Child 1'', parentId = Some ''1''\<rparr>,
       \<lparr>user_id = ''3'', name = ''Child 2'', parentId = Some ''1''\<rparr>] = []"
    by (simp add: falsy_parentId_def)
  show ?thesis
    using h no_root_empty_layout [OF h, of 1000] by blast
qed

text \<open>
  As stated the claim fails at a single entity whose \<^verbatim>\<open>parentId\<close> is the empty string:
  no entity lacks a \<^verbatim>\<open>parentId\<close>, and the entity is drawn as the root.
\<close>

theorem no_root_empty_layout_counterexample:
  "filter (\<lambda>u. parentId u = None)
      [\<lparr>user_id = ''1'', name = ''Alone'', parentId = Some ''''\<rparr>] = []
   \<and> layout_nodes (drawTree [\<lparr>user_id = ''1'', name = ''Alone'', parentId = Some ''''\<rparr>] 1000)
       = [(\<lparr>user_id = ''1'', name = ''Alone'', parentId = Some ''''\<rparr>, 420, 100)]
   \<and> paint (drawTree [\<lparr>user_id = ''1'', name = ''Alone'', parentId = Some ''''\<rparr>] 1000)
       = drawUser \<lparr>user_id = ''1'', name = ''Alone'', parentId = Some ''''\<rparr> 420 100"
  by (simp add: drawTree_def falsy_parentId_def NODE_WIDTH_def)

subsection \<open>C4: the scale stays in the clamp range\<close>

text \<open>
  Claim C4. Starting from any scale in \<open>[0.25, 4]\<close>, after any finite sequence of wheel
  events the scale is within \<open>[0.25, 4]\<close> inclusive; each wheel event without shift and
  with vertical delta \<open>deltaY\<close> sets the scale to
  \<open>clamp (scale - deltaY * 0.001, 0.25, 4)\<close>.
\<close>

theorem wheel_scale_clamped:
  assumes "0.25 \<le> scale s" and "scale s \<le> 4"
  shows "0.25 \<le> scale (run s (wheel_events ws)) \<and> scale (run s (wheel_events ws)) \<le> 4
    \<and> scale (dispatch s (Wheel False deltaY)) = min 4 (max 0.25 (scale s - deltaY * 0.001))"
proof -
  have "scale (dispatch s (Wheel False deltaY)) = min 4 (max 0.25 (scale s - deltaY * 0.001))"
    by (simp add: handleWheel_def Let_def)
  then show ?thesis
    using run_scale_range [OF assms, of "wheel_events ws"] by blast
qed

text \<open>
  The theorem at the state on mount: a scroll of 5000 clamps the scale to 0.25, a scroll
  with shift leaves it, a scroll of -100 adds 0.1; a scroll of -5000 clamps to 4.
\<close>

theorem wheel_scale_clamped_witness:
  "0.25 \<le> scale (initial 800 600) \<and> scale (initial 800 600) \<le> 4
   \<and> scale (run (initial 800 600) (wheel_events [(False, 5000), (True, 30), (False, - 100)])) = 0.35
   \<and> 0.25 \<le> scale (run (initial 800 600) (wheel_events [(False, 5000), (True, 30), (False, - 100)]))
   \<and> scale (run (initial 800 600) (wheel_events [(False, 5000), (True, 30), (False, - 100)])) \<le> 4
   \<and> scale (dispatch (initial 800 600) (Wheel False (- 5000))) = 4"
proof -
  have a: "0.25 \<le> scale (initial 800 600)" and b: "scale (initial 800 600) \<le> 4"
    by (simp_all add: initial_def)
  note t = wheel_scale_clamped [OF a b, of "[(False, 5000), (True, 30), (False, - 100)]" "- 5000"]
  have v: "scale (run (initial 800 600) (wheel_events [(False, 5000), (True, 30), (False, - 100)])) = 0.35"
    by (simp add: run_def wheel_events_def initial_def handleWheel_def Let_def)
  have z: "scale (dispatch (initial 800 600) (Wheel False (- 5000))) = 4"
    using t [THEN conjunct2, THEN conjunct2] by (simp add: initial_def)
  show ?thesis
    using a b v z t [THEN conjunct1] t [THEN conjunct2, THEN conjunct1] by blast
qed

subsection \<open>C5: a drag moves the offset by the net pointer movement\<close>

text \<open>
  Claim C5. For every drag, a press at \<open>p0\<close>, moves through \<open>p1, ..., pn\<close>, then a
  release (or the pointer leaving), the offset changes in total by \<open>pn - p0\<close>: the deltas
  of the moves telescope, however the movement is split into move events, and no delta is
  divided by the scale.

  Every move adds its delta to the offset in binary64, so the sum telescopes only when no
  addition rounds. The statement proved: when the offset at the press and all pointer
  coordinates are whole numbers of magnitude at most \<open>2^51\<close>, the offset changes in total
  by \<open>pn - p0\<close>, however the movement is split. It holds at every scale, which does not
  change, and also when a drag is already in progress. With no move at all the last
  position is \<open>p0\<close> and the offset is unchanged.
\<close>

theorem drag_net_delta:
  assumes "pixel (point_x (offset s))" and "pixel (point_y (offset s))"
    and "pixel x0" and "pixel y0"
    and "list_all (\<lambda>p. pixel (fst p) \<and> pixel (snd p)) ps"
  shows "point_x (offset (run s (MouseDown x0 y0 # move_events ps @ [MouseUp])))
      = point_x (offset s) + (fst (last ((x0, y0) # ps)) - x0)
   \<and> point_y (offset (run s (MouseDown x0 y0 # move_events ps @ [MouseUp])))
      = point_y (offset s) + (snd (last ((x0, y0) # ps)) - y0)
   \<and> scale (run s (MouseDown x0 y0 # move_events ps @ [MouseUp])) = scale s
   \<and> \<not> isDragging (run s (MouseDown x0 y0 # move_events ps @ [MouseUp]))
   \<and> run s (MouseDown x0 y0 # move_events ps @ [MouseLeave])
      = run s (MouseDown x0 y0 # move_events ps @ [MouseUp])"
proof -
  define s0 where "s0 = handleMouseDown s x0 y0"
  have d: "isDragging s0"
    and l: "point_x (lastPos s0) = x0" "point_y (lastPos s0) = y0"
    and o: "offset s0 = offset s" and c: "scale s0 = scale s"
    by (simp_all add: s0_def handleMouseDown_def)
  have ix: "point_x (offset s0) \<in> \<int>" and iy: "point_y (offset s0) \<in> \<int>"
    using assms(1) assms(2) by (simp_all add: o pixel_Ints)
  have lx: "pixel (point_x (lastPos s0))" and ly: "pixel (point_y (lastPos s0))"
    using assms(3) assms(4) by (simp_all add: l)
  have "\<bar>point_x (offset s) - x0\<bar> \<le> \<bar>point_x (offset s)\<bar> + \<bar>x0\<bar>" by simp
  also have "\<dots> \<le> 2 ^ 51 + 2 ^ 51"
    using pixel_bound [OF assms(1)] pixel_bound [OF assms(3)] by (rule add_mono)
  finally have bx: "\<bar>point_x (offset s0) - point_x (lastPos s0)\<bar> \<le> 2 ^ 52"
    by (simp add: o l)
  have "\<bar>point_y (offset s) - y0\<bar> \<le> \<bar>point_y (offset s)\<bar> + \<bar>y0\<bar>" by simp
  also have "\<dots> \<le> 2 ^ 51 + 2 ^ 51"
    using pixel_bound [OF assms(2)] pixel_bound [OF assms(4)] by (rule add_mono)
  finally have by': "\<bar>point_y (offset s0) - point_y (lastPos s0)\<bar> \<le> 2 ^ 52"
    by (simp add: o l)
  note m = run_moves_dragging [OF d ix iy lx ly bx by' assms(5), unfolded l o c]
  have u: "run s (MouseDown x0 y0 # move_events ps @ [MouseUp])
      = stopDragging (run s0 (move_events ps))"
    by (simp add: run_Cons run_append run_Nil s0_def)
  have v: "run s (MouseDown x0 y0 # move_events ps @ [MouseLeave])
      = stopDragging (run s0 (move_events ps))"
    by (simp add: run_Cons run_append run_Nil s0_def)
  show ?thesis
    unfolding u v using m by (simp add: stopDragging_def)
qed

text \<open>
  The theorem at the state on mount: a press at \<open>(10, 10)\<close>, moves to \<open>(30, 5)\<close> and
  \<open>(70, 80)\<close>, and the release move the offset from \<open>(0, 0)\<close> to \<open>(60, 70)\<close>.
\<close>

theorem drag_net_delta_witness:
  "pixel (point_x (offset (initial 800 600))) \<and> pixel (point_y (offset (initial 800 600)))
   \<and> pixel 10 \<and> list_all (\<lambda>p. pixel (fst p) \<and> pixel (snd p)) [(30, 5), (70, 80)]
   \<and> point_x (offset (run (initial 800 600)
        (MouseDown 10 10 # move_events [(30, 5), (70, 80)] @ [MouseUp]))) = 60
   \<and> point_y (offset (run (initial 800 600)
        (MouseDown 10 10 # move_events [(30, 5), (70, 80)] @ [MouseUp]))) = 70"
proof -
  have a: "pixel (point_x (offset (initial 800 600)))"
    and b: "pixel (point_y (offset (initial 800 600)))"
    by (simp_all add: initial_def pixel_def)
  have c: "pixel 10"
    by (simp add: pixel_def)
  have d: "list_all (\<lambda>p. pixel (fst p) \<and> pixel (snd p)) [(30, 5), (70, 80)]"
    by (simp add: pixel_def)
  note t = drag_net_delta [OF a b c c d]
  have x: "point_x (offset (run (initial 800 600)
        (MouseDown 10 10 # move_events [(30, 5), (70, 80)] @ [MouseUp]))) = 60"
    using t [THEN conjunct1] by (simp add: initial_def)
  have y: "point_y (offset (run (initial 800 600)
        (MouseDown 10 10 # move_events [(30, 5), (70, 80)] @ [MouseUp]))) = 70"
    using t [THEN conjunct2, THEN conjunct1] by (simp add: initial_def)
  show ?thesis using a b c d x y by blast
qed

text \<open>
  As stated the claim fails at a fractional offset. A wheel event with shift and
  \<open>deltaY = -0.1\<close> (the double \<open>3602879701896397 / 2^55\<close>) puts \<open>offset.x\<close> at that
  double. A drag from \<open>x = 0\<close> to \<open>1\<close> and back to \<open>0\<close> has net movement 0, but
  \<open>0.1 + 1\<close> rounds to \<open>4953959590107546 / 2^52\<close> and subtracting 1 leaves
  \<open>450359962737050 / 2^52\<close>, the double \<open>0.10000000000000009\<close>: the offset has changed.
  The same net movement as a single move from 0 to 0 leaves the offset as it was, so the
  result depends on how the movement is split.
\<close>

theorem drag_net_delta_counterexample:
  "point_x (offset (run (initial 800 600) [Wheel True (- (3602879701896397 / 2 ^ 55))]))
     = 3602879701896397 / 2 ^ 55
   \<and> point_x (offset (run (initial 800 600)
        [Wheel True (- (3602879701896397 / 2 ^ 55)),
         MouseDown 0 0, MouseMove 1 0, MouseMove 0 0, MouseUp]))
     = 450359962737050 / 2 ^ 52
   \<and> point_x (offset (run (initial 800 600)
        [Wheel True (- (3602879701896397 / 2 ^ 55)),
         MouseDown 0 0, MouseMove 1 0, MouseMove 0 0, MouseUp]))
     \<noteq> point_x (offset (run (initial 800 600) [Wheel True (- (3602879701896397 / 2 ^ 55))]))
         + (0 - 0)
   \<and> point_x (offset (run (initial 800 600)
        [Wheel True (- (3602879701896397 / 2 ^ 55)),
         MouseDown 0 0, MouseMove 0 0, MouseUp]))
     = 3602879701896397 / 2 ^ 55"
proof -
  define d :: real where "d = 3602879701896397 / 2 ^ 55"
  define u :: real where "u = 4953959590107546 / 2 ^ 52"
  define r :: real where "r = 450359962737050 / 2 ^ 52"
  have one: "to_double 1 = 1"
    using to_double_of_int [of 1] by simp
  have mone: "to_double (- 1) = - 1"
    using to_double_of_int [of "- 1"] by simp
  have zero: "to_double 0 = 0"
    using to_double_of_int [of 0] by simp
  have up: "to_double (d + 1) = u"
  proof -
    have "to_double (d + 1) = of_int (round_half_even ((d + 1) * 2 ^ 52)) / 2 ^ 52"
      by (rule to_double_spacing) (simp_all add: d_def)
    also have "round_half_even ((d + 1) * 2 ^ 52) = 4953959590107546"
      by (simp add: round_half_even_def Let_def d_def)
    finally show ?thesis by (simp add: u_def)
  qed
  have e: "u - 1 = r"
    by (simp add: u_def r_def)
  have "to_double (of_int 450359962737050 / 2 ^ 52) = of_int 450359962737050 / 2 ^ 52"
    by (rule to_double_dyadic) simp_all
  then have f: "to_double r = r"
    unfolding r_def by simp
  have down: "to_double (u - 1) = r"
    by (simp only: e f)
  have "to_double (of_int 3602879701896397 / 2 ^ 55) = of_int 3602879701896397 / 2 ^ 55"
    by (rule to_double_dyadic) simp_all
  then have same: "to_double d = d"
    unfolding d_def by simp
  have a: "point_x (offset (run (initial 800 600) [Wheel True (- d)])) = d"
    by (simp add: run_def handleWheel_def initial_def)
  have b: "point_x (offset (run (initial 800 600)
        [Wheel True (- d), MouseDown 0 0, MouseMove 1 0, MouseMove 0 0, MouseUp])) = r"
    by (simp add: run_def handleWheel_def initial_def handleMouseDown_def handleMouseMove_def
        stopDragging_def Let_def one mone up down)
  have c: "point_x (offset (run (initial 800 600)
        [Wheel True (- d), MouseDown 0 0, MouseMove 0 0, MouseUp])) = d"
    by (simp add: run_def handleWheel_def initial_def handleMouseDown_def handleMouseMove_def
        stopDragging_def Let_def zero same)
  have "r \<noteq> d"
    by (simp add: r_def d_def)
  then have n: "point_x (offset (run (initial 800 600)
        [Wheel True (- d), MouseDown 0 0, MouseMove 1 0, MouseMove 0 0, MouseUp]))
     \<noteq> point_x (offset (run (initial 800 600) [Wheel True (- d)])) + (0 - 0)"
    by (simp only: a b)
  show ?thesis
    using a b c n unfolding d_def r_def by blast
qed

subsection \<open>C6: wheel with shift pans horizontally\<close>


subsection \<open>C7: the children are symmetric under the root, 220 apart\<close>

text \<open>
  Claim C7. For every number of children and every surface width, the x-positions of the
  child nodes are symmetric around the x-position of the root's centre, and consecutive
  children are exactly 220 apart.

  The x of a node is its left edge. The statement proved, for every entity list and every
  width: when the layout is a root node at \<open>(rx, ry)\<close> followed by the child nodes, the
  x-positions of the child nodes are symmetric around the x-position \<open>rx\<close> of the
  root node, equivalently the children's centres \<open>x + 160/2\<close> are symmetric around the
  root's centre \<open>rx + 160/2\<close>, and consecutive x-positions differ by exactly 220.
\<close>

theorem children_symmetric_spacing:
  assumes "layout_nodes (drawTree users w) = (r, rx, ry) # cn"
  shows "symmetric_around rx (map node_x cn)
    \<and> symmetric_around (rx + 160 / 2) (map (\<lambda>n. node_x n + 160 / 2) cn)
    \<and> gaps (map node_x cn) = replicate (length cn - 1) 220"
proof (cases "find falsy_parentId users")
  case None
  then have "drawTree users w = []" by (rule drawTree_no_root)
  with assms show ?thesis by simp
next
  case (Some p)
  have "layout_nodes (drawTree users w) = (p, w / 2 - 160 / 2, 100) # child_nodes (drawTree users w)"
    by (rule layout_of_root(1) [OF Some])
  with assms have rx: "rx = w / 2 - 160 / 2" and cn: "cn = child_nodes (drawTree users w)"
    by simp_all
  have xs: "map node_x cn =
     map (\<lambda>k. rx - (real (length cn) - 1) * 220 / 2 + real k * 220) [0 ..< length cn]"
    unfolding rx cn by (rule child_xs_of_root [OF Some])
  have s: "symmetric_around rx (map node_x cn)"
    by (subst xs) (rule symmetric_around_spread)
  have "symmetric_around (rx + 160 / 2) (map (\<lambda>x. x + 160 / 2) (map node_x cn))"
    using s by (rule symmetric_around_shift)
  then have c: "symmetric_around (rx + 160 / 2) (map (\<lambda>n. node_x n + 160 / 2) cn)"
    by (simp add: comp_def)
  have g: "gaps (map node_x cn) = replicate (length cn - 1) 220"
    by (subst xs) (rule gaps_spread)
  show ?thesis using s c g by blast
qed

text \<open>The theorem at the entity set of the source and width 1000.\<close>

theorem children_symmetric_spacing_witness:
  "layout_nodes (drawTree USERS 1000) =
     (\<lparr>user_id = ''1'', name = ''Parent'', parentId = None\<rparr>, 420, 100)
     # [(\<lparr>user_id = ''2'', name = ''Child 1'', parentId = Some ''1''\<rparr>, 200, 220),
        (\<lparr>user_id = ''3'', name = ''Child 2'', parentId = Some ''1''\<rparr>, 420, 220),
        (\<lparr>user_id = ''4'', name = ''Child 3'', parentId = Some ''1''\<rparr>, 640, 220)]
   \<and> symmetric_around 420 [200, 420, 640]
   \<and> symmetric_around 500 [280, 500, 720]
   \<and> gaps [200, 420, 640] = [220, 220]"
proof -
  have h: "layout_nodes (drawTree USERS 1000) =
     (\<lparr>user_id = ''1'', name = ''Parent'', parentId = None\<rparr>, 420, 100)
     # [(\<lparr>user_id = ''2'', name = ''Child 1'', parentId = Some ''1''\<rparr>, 200, 220),
        (\<lparr>user_id = ''3'', name = ''Child 2'', parentId = Some ''1''\<rparr>, 420, 220),
        (\<lparr>user_id = ''4'', name = ''Child 3'', parentId = Some ''1''\<rparr>, 640, 220)]"
    by (simp add: drawTree_USERS_1000)
  note t = children_symmetric_spacing [OF h]
  have a: "symmetric_around 420 [200, 420, 640]"
    using t [THEN conjunct1] by (simp add: node_x_def)
  have b: "symmetric_around 500 [280, 500, 720]"
    using t [THEN conjunct2, THEN conjunct1] by (simp add: node_x_def)
  have c: "gaps [200, 420, 640] = [220, 220]"
    using t [THEN conjunct2, THEN conjunct2] by (simp add: node_x_def numeral_2_eq_2)
  show ?thesis using h a b c by blast
qed

text \<open>
  As stated the claim fails in the scenario: the root node is at \<open>x = 420\<close>, its centre
  at \<open>420 + 160/2 = 500\<close>, and the x-positions 200, 420, 640 of the child nodes are not
  symmetric around 500.
\<close>

theorem children_symmetric_spacing_counterexample:
  "hd (layout_nodes (drawTree USERS 1000))
     = (\<lparr>user_id = ''1'', name = ''Parent'', parentId = None\<rparr>, 420, 100)
   \<and> map node_x (child_nodes (drawTree USERS 1000)) = [200, 420, 640]
   \<and> \<not> symmetric_around (420 + 160 / 2) (map node_x (child_nodes (drawTree USERS 1000)))"
  by (simp add: drawTree_USERS_1000 child_nodes_def node_x_def symmetric_around_def)

subsection \<open>C8: the rectangle cleared on each frame\<close>

text \<open>
  Claim C8. On every frame, after the transform (identity, device pixel ratio, translate by
  the offset, scale by the scale), the draw pass clears exactly the rectangle of the drawing
  space that is visible on the surface, accounting for the offset and the scale.

  \<^verbatim>\<open>draw\<close> calls \<^verbatim>\<open>clearRect(-offset.x, -offset.y, size.width, size.height)\<close>:
  the offset is undone, the scale is not (lemma \<open>draw_clears_visible_iff\<close>: the cleared
  rectangle is the visible one only at scale 1). The theorem evaluates the frame after one
  wheel event of \<open>deltaY = 500\<close> on a window of 800 by 600 and pixel ratio 1: the scale is
  0.5, the visible rectangle is \<open>(0, 0, 1600, 1200)\<close>, the rectangle cleared is
  \<open>(0, 0, 800, 600)\<close>, which covers the bitmap from \<open>(0, 0)\<close> to \<open>(400, 300)\<close> only.
\<close>

theorem draw_clear_ignores_scale:
  "map_option (\<lambda>fr. (canvas_width fr, canvas_height fr))
      (draw \<lparr>has_canvas = True, has_ctx = True, devicePixelRatio = 1\<rparr> USERS
         (run (initial 800 600) [Wheel False 500])) = Some (800, 600)
   \<and> scale (run (initial 800 600) [Wheel False 500]) = 0.5
   \<and> map_option cleared
      (draw \<lparr>has_canvas = True, has_ctx = True, devicePixelRatio = 1\<rparr> USERS
         (run (initial 800 600) [Wheel False 500])) = Some (0, 0, 800, 600)
   \<and> map_option cleared_corners
      (draw \<lparr>has_canvas = True, has_ctx = True, devicePixelRatio = 1\<rparr> USERS
         (run (initial 800 600) [Wheel False 500])) = Some ((0, 0), (400, 300))
   \<and> map_option visible_rect
      (draw \<lparr>has_canvas = True, has_ctx = True, devicePixelRatio = 1\<rparr> USERS
         (run (initial 800 600) [Wheel False 500])) = Some (0, 0, 1600, 1200)
   \<and> map_option clears_visible
      (draw \<lparr>has_canvas = True, has_ctx = True, devicePixelRatio = 1\<rparr> USERS
         (run (initial 800 600) [Wheel False 500])) = Some False"
  by (simp add: draw_def Let_def run_def initial_def handleWheel_def clears_visible_def
      visible_rect_def cleared_corners_def to_bitmap_def setTransform_def ctx_scale_def ctx_translate_def)

subsection \<open>C9: a move outside a drag changes nothing\<close>

text \<open>
  Claim C9. In the idle state (no press active, or after a release or the pointer leaving)
  every pointer move leaves the offset, the scale and the drag anchor unchanged: the whole
  state is the same after the move. The state on mount is idle.
\<close>

theorem idle_move_noop:
  "(\<not> isDragging s \<longrightarrow> dispatch s (MouseMove x y) = s)
   \<and> dispatch (dispatch s MouseUp) (MouseMove x y) = dispatch s MouseUp
   \<and> dispatch (dispatch s MouseLeave) (MouseMove x y) = dispatch s MouseLeave
   \<and> dispatch (initial w h) (MouseMove x y) = initial w h"
  by (simp add: handleMouseMove_def stopDragging_def initial_def)

text \<open>
  The theorem at the state after a finished drag: a later move leaves the offset where
  the drag put it.
\<close>

theorem idle_move_noop_witness:
  "\<not> isDragging (run (initial 800 600) [MouseDown 10 10, MouseMove 30 5, MouseUp])
   \<and> dispatch (run (initial 800 600) [MouseDown 10 10, MouseMove 30 5, MouseUp]) (MouseMove 70 80)
       = run (initial 800 600) [MouseDown 10 10, MouseMove 30 5, MouseUp]
   \<and> offset (dispatch (run (initial 800 600) [MouseDown 10 10, MouseMove 30 5, MouseUp]) (MouseMove 70 80))
       = \<lparr>point_x = 20, point_y = - 5\<rparr>"
proof -
  have i: "\<not> isDragging (run (initial 800 600) [MouseDown 10 10, MouseMove 30 5, MouseUp])"
    by (simp add: run_def stopDragging_def)
  have e: "dispatch (run (initial 800 600) [MouseDown 10 10, MouseMove 30 5, MouseUp]) (MouseMove 70 80)
       = run (initial 800 600) [MouseDown 10 10, MouseMove 30 5, MouseUp]"
    using i idle_move_noop [of "run (initial 800 600) [MouseDown 10 10, MouseMove 30 5, MouseUp]" 70 80]
    by blast
  have p: "to_double 20 = 20"
    using to_double_of_int [of 20] by simp
  have q: "to_double (- 5) = - 5"
    using to_double_of_int [of "- 5"] by simp
  have o: "offset (run (initial 800 600) [MouseDown 10 10, MouseMove 30 5, MouseUp])
       = \<lparr>point_x = 20, point_y = - 5\<rparr>"
    by (simp add: run_def stopDragging_def handleMouseMove_def handleMouseDown_def initial_def
        Let_def p q)
  show ?thesis using i e o by simp
qed

subsection \<open>C10: several rootless entities\<close>

text \<open>
  Claim C10. When the entity set has more than one rootless entity, the first rootless
  entity in input order is the root; every other entity, including the other rootless ones
  and any entity whose \<^verbatim>\<open>parentId\<close> differs from the root's id, has no node and no
  edge.

  The statement proved, for any number of such entities: the root is the first entity in
  input order whose \<^verbatim>\<open>parentId\<close> is absent or empty (the list is \<open>pre @ r # post\<close>
  with no such entity in \<open>pre\<close>); the child nodes are, in input order, the entities whose
  \<^verbatim>\<open>parentId\<close> is the id of the root, each with its one edge; and every other entity
  whose \<^verbatim>\<open>parentId\<close> is absent or differs from the root's id has no node.
\<close>

theorem first_falsy_is_root:
  assumes "list_all (\<lambda>u. \<not> falsy_parentId u) pre" and "falsy_parentId r"
  shows "layout_nodes (drawTree (pre @ r # post) w)
       = (r, w / 2 - 160 / 2, 100) # child_nodes (drawTree (pre @ r # post) w)
    \<and> map node_entity (child_nodes (drawTree (pre @ r # post) w))
       = filter (\<lambda>u. parentId u = Some (user_id r)) (pre @ r # post)
    \<and> layout_edges (drawTree (pre @ r # post) w)
       = map (\<lambda>n. (w / 2 - 160 / 2 + 160 / 2, 100 + 70, node_x n + 160 / 2, node_y n))
           (child_nodes (drawTree (pre @ r # post) w))
    \<and> (\<forall>u. u \<noteq> r \<and> parentId u \<noteq> Some (user_id r)
          \<longrightarrow> u \<notin> set (map node_entity (layout_nodes (drawTree (pre @ r # post) w))))"
proof -
  have f: "find falsy_parentId (pre @ r # post) = Some r"
    using assms by (rule find_first)
  note t = layout_of_root [OF f, of w]
  have "map node_entity (layout_nodes (drawTree (pre @ r # post) w))
      = r # filter (\<lambda>u. parentId u = Some (user_id r)) (pre @ r # post)"
    by (subst t(1)) (simp only: list.map t(2), simp add: node_entity_def)
  then have "\<forall>u. u \<noteq> r \<and> parentId u \<noteq> Some (user_id r)
          \<longrightarrow> u \<notin> set (map node_entity (layout_nodes (drawTree (pre @ r # post) w)))"
    by auto
  then show ?thesis using t(1) t(2) t(3) by blast
qed

text \<open>
  The theorem at four entities, two of them without \<^verbatim>\<open>parentId\<close>: the first of the
  two is the root, the second has no node.
\<close>

theorem first_falsy_is_root_witness:
  "list_all (\<lambda>u. \<not> falsy_parentId u) [\<lparr>user_id = ''x'', name = ''X'', parentId = Some ''q''\<rparr>]
   \<and> falsy_parentId \<lparr>user_id = ''a'', name = ''A'', parentId = None\<rparr>
   \<and> layout_nodes (drawTree
        [\<lparr>user_id = ''x'', name = ''X'', parentId = Some ''q''\<rparr>,
         \<lparr>user_id = ''a'', name = ''A'', parentId = None\<rparr>,
         \<lparr>user_id = ''b'', name = ''B'', parentId = None\<rparr>,
         \<lparr>user_id = ''c'', name = ''C'', parentId = Some ''a''\<rparr>] 1000)
       = [(\<lparr>user_id = ''a'', name = ''A'', parentId = None\<rparr>, 420, 100),
          (\<lparr>user_id = ''c'', name = ''C'', parentId = Some ''a''\<rparr>, 420, 220)]
   \<and> layout_edges (drawTree
        [\<lparr>user_id = ''x'', name = ''X'', parentId = Some ''q''\<rparr>,
         \<lparr>user_id = ''a'', name = ''A'', parentId = None\<rparr>,
         \<lparr>user_id = ''b'', name = ''B'', parentId = None\<rparr>,
         \<lparr>user_id = ''c'', name = ''C'', parentId = Some ''a''\<rparr>] 1000) = [(500, 170, 500, 220)]
   \<and> \<lparr>user_id = ''b'', name = ''B'', parentId = None\<rparr>
       \<notin> set (map node_entity (layout_nodes (drawTree
        [\<lparr>user_id = ''x'', name = ''X'', parentId = Some ''q''\<rparr>,
         \<lparr>user_id = ''a'', name = ''A'', parentId = None\<rparr>,
         \<lparr>user_id = ''b'', name = ''B'', parentId = None\<rparr>,
         \<lparr>user_id = ''c'', name = ''C'', parentId = Some ''a''\<rparr>] 1000)))"
proof -
  define X where "X = \<lparr>user_id = ''x'', name = ''X'', parentId = Some ''q''\<rparr>"
  define A where "A = \<lparr>user_id = ''a'', name = ''A'', parentId = None\<rparr>"
  define B where "B = \<lparr>user_id = ''b'', name = ''B'', parentId = None\<rparr>"
  define C where "C = \<lparr>user_id = ''c'', name = ''C'', parentId = Some ''a''\<rparr>"
  have p: "list_all (\<lambda>u. \<not> falsy_parentId u) [X]"
    by (simp add: falsy_parentId_def X_def)
  have r: "falsy_parentId A"
    by (simp add: falsy_parentId_def A_def)
  note t = first_falsy_is_root [OF p r, of "[B, C]" 1000]
  have e: "map node_entity (child_nodes (drawTree [X, A, B, C] 1000)) = [C]"
    using t [THEN conjunct2, THEN conjunct1] by (simp add: X_def A_def B_def C_def)
  have n: "layout_nodes (drawTree [X, A, B, C] 1000) = [(A, 420, 100), (C, 420, 220)]"
    by (simp add: drawTree_def falsy_parentId_def X_def A_def B_def C_def
        NODE_WIDTH_def VERTICAL_GAP_def HORIZONTAL_GAP_def)
  have l: "layout_edges (drawTree [X, A, B, C] 1000) = [(500, 170, 500, 220)]"
    using t [THEN conjunct2, THEN conjunct2, THEN conjunct1]
    by (simp add: n child_nodes_def node_x_def node_y_def)
  have "B \<noteq> A \<and> parentId B \<noteq> Some (user_id A)"
    by (simp add: A_def B_def)
  then have b: "B \<notin> set (map node_entity (layout_nodes (drawTree [X, A, B, C] 1000)))"
    using t [THEN conjunct2, THEN conjunct2, THEN conjunct2] by simp
  show ?thesis
    using p r n l b unfolding X_def A_def B_def C_def by blast
qed

text \<open>
  As stated the claim fails. With \<open>rootless\<close> read as "has no \<^verbatim>\<open>parentId\<close>": in
  the first list two entities have no \<^verbatim>\<open>parentId\<close>, the first of them is \<open>B\<close>, and
  the root drawn is \<open>A\<close>, whose \<^verbatim>\<open>parentId\<close> is empty; it is the only node. With
  \<open>rootless\<close> read as the code's test (absent or empty): in the second list both entities
  are rootless and the first is the root, but the second, whose empty \<^verbatim>\<open>parentId\<close>
  equals the empty id of the root, has a node and an edge.
\<close>

theorem first_falsy_is_root_counterexample:
  "length (filter (\<lambda>u. parentId u = None)
      [\<lparr>user_id = ''a'', name = ''A'', parentId = Some ''''\<rparr>,
       \<lparr>user_id = ''b'', name = ''B'', parentId = None\<rparr>,
       \<lparr>user_id = ''c'', name = ''C'', parentId = None\<rparr>]) = 2
   \<and> find (\<lambda>u. parentId u = None)
      [\<lparr>user_id = ''a'', name = ''A'', parentId = Some ''''\<rparr>,
       \<lparr>user_id = ''b'', name = ''B'', parentId = None\<rparr>,
       \<lparr>user_id = ''c'', name = ''C'', parentId = None\<rparr>]
     = Some \<lparr>user_id = ''b'', name = ''B'', parentId = None\<rparr>
   \<and> layout_nodes (drawTree
      [\<lparr>user_id = ''a'', name = ''A'', parentId = Some ''''\<rparr>,
       \<lparr>user_id = ''b'', name = ''B'', parentId = None\<rparr>,
       \<lparr>user_id = ''c'', name = ''C'', parentId = None\<rparr>] 1000)
     = [(\<lparr>user_id = ''a'', name = ''A'', parentId = Some ''''\<rparr>, 420, 100)]
   \<and> filter falsy_parentId
      [\<lparr>user_id = '''', name = ''R'', parentId = None\<rparr>,
       \<lparr>user_id = ''d'', name = ''D'', parentId = Some ''''\<rparr>]
     = [\<lparr>user_id = '''', name = ''R'', parentId = None\<rparr>,
        \<lparr>user_id = ''d'', name = ''D'', parentId = Some ''''\<rparr>]
   \<and> layout_nodes (drawTree
      [\<lparr>user_id = '''', name = ''R'', parentId = None\<rparr>,
       \<lparr>user_id = ''d'', name = ''D'', parentId = Some ''''\<rparr>] 1000)
     = [(\<lparr>user_id = '''', name = ''R'', parentId = None\<rparr>, 420, 100),
        (\<lparr>user_id = ''d'', name = ''D'', parentId = Some ''''\<rparr>, 420, 220)]
   \<and> layout_edges (drawTree
      [\<lparr>user_id = '''', name = ''R'', parentId = None\<rparr>,
       \<lparr>user_id = ''d'', name = ''D'', parentId = Some ''''\<rparr>] 1000)
     = [(500, 170, 500, 220)]"
  by (simp add: drawTree_def falsy_parentId_def NODE_WIDTH_def NODE_HEIGHT_def
      VERTICAL_GAP_def HORIZONTAL_GAP_def)

end
